theory Spec2Isabelle
  imports Main
begin

section \<open>JavaScript values shared by the components\<close>

text \<open>
  A value handed to \<open>updateVisibilityMap\<close> is a boolean (a channel's +s state) or a
  string (a room visibility); the function checks \<open>typeof value\<close> itself.
\<close>

datatype jsval = JBool bool | JStr string

text \<open>
  What a function of the bridge throws (or what its promise is rejected with): a
  \<open>TypeError\<close> of the runtime (a property read on \<open>undefined\<close>, a call of something
  that is not a function), a \<open>ReferenceError\<close> of the runtime (a name that nothing binds),
  an \<open>Error\<close> the code constructs itself, or the rejection of a collaborator (the store,
  the homeserver).
\<close>

datatype js_error = TypeError | ReferenceError | Error string | Rejection string

text \<open>
  \<open>obj[key]\<close> in a condition: \<open>undefined\<close> (no entry) is falsy, a stored boolean is
  itself.
\<close>

fun truthy :: "bool option \<Rightarrow> bool" where
  "truthy None = False"
| "truthy (Some b) = b"

section \<open>PublicitySyncer (src/src/bridge/PublicitySyncer.ts)\<close>

datatype visibility = Private | Public

record IrcServer =
  domain :: string
  networkId :: string

text \<open>
  The \<open>rooms\<close> table of the store, as PgDataStore queries it: one row per
  (IRC domain, IRC channel, Matrix room) mapping.
\<close>

record room_row =
  irc_domain :: string
  irc_channel :: string
  room_id :: string

definition getMatrixRoomsForChannel :: "room_row list \<Rightarrow> IrcServer \<Rightarrow> string \<Rightarrow> string list" where
  "getMatrixRoomsForChannel rows server channel =
     map room_id (filter (\<lambda>e. irc_domain e = domain server \<and> irc_channel e = channel) rows)"

text \<open>
  \<open>getIrcChannelsForRoomId\<close>: the channels mapped to a room, each with its server; a row
  whose domain is not in the store's \<open>serverMappings\<close> is left out.
\<close>

definition getIrcChannelsForRoomId ::
  "(string \<rightharpoonup> IrcServer) \<Rightarrow> room_row list \<Rightarrow> string \<Rightarrow> (IrcServer \<times> string) list" where
  "getIrcChannelsForRoomId serverMappings rows roomId =
     concat (map (\<lambda>e. case serverMappings (irc_domain e) of
                          None \<Rightarrow> []
                        | Some server \<Rightarrow> [(server, irc_channel e)])
               (filter (\<lambda>e. room_id e = roomId) rows))"

record visibilityMap =
  mappings :: "string \<rightharpoonup> string list"
  networkToRooms :: "string \<rightharpoonup> string list"
  channelIsSecret :: "string \<rightharpoonup> bool"
  roomVisibilities :: "string \<rightharpoonup> visibility"

definition emptyVisibilityMap :: visibilityMap where
  "emptyVisibilityMap =
     \<lparr>mappings = Map.empty, networkToRooms = Map.empty,
      channelIsSecret = Map.empty, roomVisibilities = Map.empty\<rparr>"

definition getIRCVisMapKey :: "string \<Rightarrow> string \<Rightarrow> string" where
  "getIRCVisMapKey netId channel = netId @ '' '' @ channel"

text \<open>
  Calls that leave the syncer, in the order they are issued: the directory update on the
  homeserver, the store write, and the log lines that carry a computed value.
\<close>

datatype effect =
    SetRoomDirectoryVisibilityAppService string string visibility
  | SetRoomVisibility string visibility
  | LogSolved string string visibility
  | LogFailedSetVisibility
  | LogFailedSync string

text \<open>
  The homeserver and the store are collaborators: whether a call for a room resolves is a
  parameter of the model (\<open>True\<close>: the promise resolves).
\<close>

record remote =
  directoryOk :: "string \<Rightarrow> bool"
  storeOk :: "string \<Rightarrow> bool"

text \<open>
  The first \<open>forEach\<close> of \<open>solveVisibility\<close>: the reverse mapping gets the room pushed
  under the key of the channel, the list created when there is none.
\<close>

definition pushNetworkToRooms :: "string \<Rightarrow> (string \<rightharpoonup> string list) \<Rightarrow> string \<Rightarrow> (string \<rightharpoonup> string list)" where
  "pushNetworkToRooms key n2r roomId =
     n2r(key \<mapsto> (case n2r key of None \<Rightarrow> [] | Some rs \<Rightarrow> rs) @ [roomId])"

text \<open>
  \<open>const correctState = this.visibilityMap.channelIsSecret[channel] ? 'private' : 'public'\<close>
\<close>

definition correctState :: "visibilityMap \<Rightarrow> string \<Rightarrow> visibility" where
  "correctState vm channel = (if truthy (channelIsSecret vm channel) then Private else Public)"

text \<open>
  \<open>this.visibilityMap.mappings[roomId][0].split(' ')[0]\<close>: reading \<open>[0]\<close> of \<open>undefined\<close>
  throws, and so does \<open>.split\<close> on the \<open>undefined\<close> first element of an empty list.
\<close>

definition firstMappingNetworkId :: "visibilityMap \<Rightarrow> string \<Rightarrow> js_error + string" where
  "firstMappingNetworkId vm roomId =
     (case mappings vm roomId of
        None \<Rightarrow> Inl TypeError
      | Some [] \<Rightarrow> Inl TypeError
      | Some (key # _) \<Rightarrow> Inr (takeWhile (\<lambda>c. c \<noteq> CHR '' '') key))"

text \<open>
  The per-room task of the final \<open>Promise.all\<close>. A failing homeserver or store call is
  caught inside the task and logged; the cache is updated only after both resolved.
\<close>

definition roomTask ::
  "remote \<Rightarrow> (string \<rightharpoonup> visibility) \<Rightarrow> visibility \<Rightarrow> visibilityMap \<Rightarrow> string
     \<Rightarrow> js_error + (effect list \<times> visibilityMap)" where
  "roomTask rem currentStates correct vm roomId =
     (case firstMappingNetworkId vm roomId of
        Inl e \<Rightarrow> Inl e
      | Inr netId \<Rightarrow>
          if currentStates roomId \<noteq> Some correct then
            (if \<not> directoryOk rem roomId then
               Inr ([SetRoomDirectoryVisibilityAppService netId roomId correct,
                     LogFailedSetVisibility], vm)
             else if \<not> storeOk rem roomId then
               Inr ([SetRoomDirectoryVisibilityAppService netId roomId correct,
                     SetRoomVisibility roomId correct, LogFailedSetVisibility], vm)
             else
               Inr ([SetRoomDirectoryVisibilityAppService netId roomId correct,
                     SetRoomVisibility roomId correct],
                    vm\<lparr>roomVisibilities := (roomVisibilities vm)(roomId \<mapsto> correct)\<rparr>))
          else Inr ([], vm))"

text \<open>
  \<open>Promise.all(roomIds.map(async ...))\<close>: every task is started, the first rejection is
  the rejection of the whole, and the calls of the tasks that did not throw are issued
  all the same. The tasks are run here in the order of \<open>roomIds\<close>.
\<close>

fun runTasks ::
  "remote \<Rightarrow> (string \<rightharpoonup> visibility) \<Rightarrow> visibility \<Rightarrow> string list \<Rightarrow> visibilityMap
     \<Rightarrow> js_error option \<times> effect list \<times> visibilityMap" where
  "runTasks rem cur correct [] vm = (None, [], vm)"
| "runTasks rem cur correct (r # rs) vm =
     (case roomTask rem cur correct vm r of
        Inl e \<Rightarrow>
          (case runTasks rem cur correct rs vm of (_, effs, vm') \<Rightarrow> (Some e, effs, vm'))
      | Inr (effs1, vm1) \<Rightarrow>
          (case runTasks rem cur correct rs vm1 of (err, effs, vm') \<Rightarrow> (err, effs1 @ effs, vm')))"

text \<open>
  \<open>solveVisibility(channel, server)\<close>. \<open>rows\<close> is the store's table and \<open>stored\<close> what
  \<open>getRoomsVisibility(roomIds)\<close> answers: a rejection, or the visibilities it knows, which
  are spread over the "private by default" states. The result is the rejection of the
  returned promise (if any), the calls issued and the cache afterwards.
\<close>

definition solveVisibility ::
  "room_row list \<Rightarrow> (js_error + (string \<rightharpoonup> visibility)) \<Rightarrow> remote \<Rightarrow> visibilityMap
     \<Rightarrow> string \<Rightarrow> IrcServer \<Rightarrow> js_error option \<times> effect list \<times> visibilityMap" where
  "solveVisibility rows stored rem vm channel server =
     (let roomIds = getMatrixRoomsForChannel rows server channel;
          vm1 = vm\<lparr>mappings := Map.empty\<rparr>;
          key = getIRCVisMapKey (networkId server) channel;
          vm2 = vm1\<lparr>networkToRooms := foldl (pushNetworkToRooms key) (networkToRooms vm1) roomIds\<rparr>
      in case stored of
           Inl e \<Rightarrow> (Some e, [], vm2)
         | Inr known \<Rightarrow>
             (let currentStates = (\<lambda>r. if r \<in> set roomIds then Some Private else None) ++ known;
                  correct = correctState vm2 channel
              in case runTasks rem currentStates correct roomIds vm2 of
                   (err, effs, vm3) \<Rightarrow> (err, LogSolved channel (networkId server) correct # effs, vm3)))"

text \<open>
  \<open>updateVisibilityMap(isMode, key, value, channel, server)\<close>. A value of the wrong type
  is thrown to the caller; a rejection of \<open>solveVisibility\<close> is caught and logged.
\<close>

definition visibilityOfString :: "string \<Rightarrow> visibility option" where
  "visibilityOfString s =
     (if s = ''private'' then Some Private else if s = ''public'' then Some Public else None)"

definition afterChange ::
  "room_row list \<Rightarrow> (js_error + (string \<rightharpoonup> visibility)) \<Rightarrow> remote \<Rightarrow> bool \<Rightarrow> visibilityMap
     \<Rightarrow> string \<Rightarrow> IrcServer \<Rightarrow> effect list \<times> visibilityMap" where
  "afterChange rows stored rem hasChanged vm channel server =
     (if hasChanged then
        (case solveVisibility rows stored rem vm channel server of
           (None, effs, vm') \<Rightarrow> (effs, vm')
         | (Some err, effs, vm') \<Rightarrow> (effs @ [LogFailedSync channel], vm'))
      else ([], vm))"

definition updateVisibilityMap ::
  "room_row list \<Rightarrow> (js_error + (string \<rightharpoonup> visibility)) \<Rightarrow> remote \<Rightarrow> visibilityMap
     \<Rightarrow> bool \<Rightarrow> string \<Rightarrow> jsval \<Rightarrow> string \<Rightarrow> IrcServer
     \<Rightarrow> js_error + (effect list \<times> visibilityMap)" where
  "updateVisibilityMap rows stored rem vm isMode key val channel server =
     (if isMode then
        (case val of
           JBool b \<Rightarrow>
             (if channelIsSecret vm key \<noteq> Some b then
                Inr (afterChange rows stored rem True
                       (vm\<lparr>channelIsSecret := (channelIsSecret vm)(key \<mapsto> b)\<rparr>) channel server)
              else Inr (afterChange rows stored rem False vm channel server))
         | JStr _ \<Rightarrow> Inl (Error ''+s state must be indicated with a boolean''))
      else
        (case val of
           JStr s \<Rightarrow>
             (case visibilityOfString s of
                None \<Rightarrow> Inl (Error ''Room visibility must = private | public'')
              | Some v \<Rightarrow>
                  (if roomVisibilities vm key \<noteq> Some v then
                     Inr (afterChange rows stored rem True
                            (vm\<lparr>roomVisibilities := (roomVisibilities vm)(key \<mapsto> v)\<rparr>) channel server)
                   else Inr (afterChange rows stored rem False vm channel server)))
         | JBool _ \<Rightarrow> Inl (Error ''Room visibility must = private | public'')))"

text \<open>Which calls change the room directory or the store.\<close>

fun isVisibilityWrite :: "effect \<Rightarrow> bool" where
  "isVisibilityWrite (SetRoomDirectoryVisibilityAppService _ _ _) = True"
| "isVisibilityWrite (SetRoomVisibility _ _) = True"
| "isVisibilityWrite _ = False"

subsection \<open>Concrete inputs for the visibility syncer\<close>

definition exampleServer :: IrcServer where
  "exampleServer = \<lparr>domain = ''irc.example'', networkId = ''net''\<rparr>"

text \<open>The store's \<open>serverMappings\<close>: the one configured server, by its domain.\<close>

definition exampleServerMappings :: "string \<rightharpoonup> IrcServer" where
  "exampleServerMappings = [''irc.example'' \<mapsto> exampleServer]"

definition exampleRows :: "room_row list" where
  "exampleRows = [\<lparr>irc_domain = ''irc.example'', irc_channel = ''#a'', room_id = ''!r:hs''\<rparr>]"

definition allOk :: remote where
  "allOk = \<lparr>directoryOk = (\<lambda>_. True), storeOk = (\<lambda>_. True)\<rparr>"

text \<open>One room bridged to two channels of the same network.\<close>

definition sharedRoomRows :: "room_row list" where
  "sharedRoomRows =
     [\<lparr>irc_domain = ''irc.example'', irc_channel = ''#a'', room_id = ''!r:hs''\<rparr>,
      \<lparr>irc_domain = ''irc.example'', irc_channel = ''#b'', room_id = ''!r:hs''\<rparr>]"

text \<open>The cache after \<open>#a\<close> was seen with +s.\<close>

definition secretA :: visibilityMap where
  "secretA = emptyVisibilityMap\<lparr>channelIsSecret := [''#a'' \<mapsto> True]\<rparr>"

section \<open>MembershipQueue (src/src/util/MembershipQueue.ts and src/unnamed/part_001)\<close>

text \<open>
  The repository holds two versions of the class: the one on \<open>matrix-bot-sdk\<close>'s
  \<open>Appservice\<close> (src/src/util/MembershipQueue.ts) and the one on the bridge library's
  \<open>Bridge\<close> (src/unnamed/part_001). Both have the same item type, constants and
  \<open>shouldRetry\<close>; they differ in \<open>serviceQueue\<close>.
\<close>

datatype membership_type = JoinType | LeaveType

text \<open>What the homeserver's client library rejects a call with.\<close>

record matrix_error =
  errcode :: "string option"
  httpStatus :: "int option"

datatype call_result = Resolved | Rejected matrix_error

text \<open>\<open>QueueUserItem\<close>, without the logging context \<open>req\<close>.\<close>

record QueueUserItem =
  itemType :: membership_type
  kickUser :: "string option"
  reason :: "string option"
  attempts :: nat
  roomId :: string
  userId :: "string option"
  retry :: bool

definition ATTEMPTS_LIMIT :: nat where
  "ATTEMPTS_LIMIT = 10"

text \<open>The items \<open>join(roomId, userId, req, retry)\<close> and \<open>leave(...)\<close> put on the queue.\<close>

definition join :: "string \<Rightarrow> string option \<Rightarrow> bool \<Rightarrow> QueueUserItem" where
  "join room user rt =
     \<lparr>itemType = JoinType, kickUser = None, reason = None, attempts = 0,
      roomId = room, userId = user, retry = rt\<rparr>"

definition leave :: "string \<Rightarrow> string \<Rightarrow> bool \<Rightarrow> string option \<Rightarrow> string option \<Rightarrow> QueueUserItem" where
  "leave room user rt rsn kick =
     \<lparr>itemType = LeaveType, kickUser = kick, reason = rsn, attempts = 0,
      roomId = room, userId = Some user, retry = rt\<rparr>"

definition shouldRetry :: "matrix_error \<Rightarrow> nat \<Rightarrow> bool" where
  "shouldRetry ex n =
     (\<not> (n = ATTEMPTS_LIMIT \<or> errcode ex = Some ''M_FORBIDDEN'' \<or> httpStatus ex = Some 403))"

text \<open>
  How one servicing of an item ends: the promise resolves, it is rejected with the
  error (\<open>throw ex\<close>), or the item was put on the queue again after the delay.
\<close>

datatype service_result = Serviced | Thrown matrix_error | Requeued QueueUserItem

text \<open>
  The error the \<open>catch\<close> of \<open>serviceQueue\<close> sees. The \<open>Appservice\<close> version awaits
  \<open>joinRoom\<close> only: \<open>kickUser\<close> and \<open>leaveRoom\<close> are called without \<open>await\<close>, so their
  rejection never reaches the \<open>catch\<close>. The \<open>Bridge\<close> version awaits all three.
\<close>

definition caughtAppservice :: "QueueUserItem \<Rightarrow> call_result \<Rightarrow> matrix_error option" where
  "caughtAppservice item res =
     (case itemType item of
        JoinType \<Rightarrow> (case res of Resolved \<Rightarrow> None | Rejected ex \<Rightarrow> Some ex)
      | LeaveType \<Rightarrow> None)"

definition caughtBridge :: "QueueUserItem \<Rightarrow> call_result \<Rightarrow> matrix_error option" where
  "caughtBridge item res = (case res of Resolved \<Rightarrow> None | Rejected ex \<Rightarrow> Some ex)"

text \<open>
  \<open>serviceQueue\<close> of src/src/util/MembershipQueue.ts:
  \<open>this.queueMembership({...item, attempts: item.attempts + 1})\<close>.
\<close>

definition serviceQueue :: "QueueUserItem \<Rightarrow> call_result \<Rightarrow> service_result" where
  "serviceQueue item res =
     (case caughtAppservice item res of
        None \<Rightarrow> Serviced
      | Some ex \<Rightarrow>
          if \<not> shouldRetry ex (attempts item) then Thrown ex
          else Requeued (item\<lparr>attempts := attempts item + 1\<rparr>))"

text \<open>\<open>serviceQueue\<close> of the \<open>Bridge\<close> version: \<open>this.queueMembership(item)\<close>.\<close>

definition serviceQueueBridge :: "QueueUserItem \<Rightarrow> call_result \<Rightarrow> service_result" where
  "serviceQueueBridge item res =
     (case caughtBridge item res of
        None \<Rightarrow> Serviced
      | Some ex \<Rightarrow>
          if \<not> shouldRetry ex (attempts item) then Thrown ex
          else Requeued item)"

text \<open>
  The life of one item on the queue: it is serviced, and serviced again each time it was
  put back. \<open>results\<close> are the outcomes of the successive remote calls; the function
  counts how often the item is put back while they last.
\<close>

fun requeueCount :: "(QueueUserItem \<Rightarrow> call_result \<Rightarrow> service_result) \<Rightarrow> call_result list \<Rightarrow> QueueUserItem \<Rightarrow> nat" where
  "requeueCount svc [] item = 0"
| "requeueCount svc (res # results) item =
     (case svc item res of
        Requeued item' \<Rightarrow> Suc (requeueCount svc results item')
      | Serviced \<Rightarrow> 0
      | Thrown _ \<Rightarrow> 0)"

text \<open>A transient failure: HTTP 500, errcode \<open>M_UNKNOWN\<close>.\<close>

definition serverError :: matrix_error where
  "serverError = \<lparr>errcode = Some ''M_UNKNOWN'', httpStatus = Some 500\<rparr>"

section \<open>IrcHandler: kicks and the leave queue\<close>

text \<open>
  The class \<open>IrcHandler\<close> stands in src/src/irc/Ident.ts, after the ident server.
\<close>

record IrcUser =
  nick :: string
  isVirtual :: bool

text \<open>What \<open>getBridgedClientByNick\<close> answers: the Matrix user behind a virtual IRC client.\<close>

record BridgedClient =
  clientUserId :: string
  isBot :: bool

text \<open>
  An item of \<open>leaveQueue\<close>. The source's field names are \<open>id\<close>, \<open>rooms\<close>, \<open>userId\<close>,
  \<open>shouldKick\<close>, \<open>kickReason\<close>, \<open>retry\<close>, \<open>deop\<close> and \<open>attempts\<close>; a room is held by its
  id. \<open>id\<close> and \<open>attempts\<close> are \<open>undefined\<close> on an item that \<open>onKick\<close> builds, and an
  absent \<open>deop\<close> is falsy.
\<close>

record LeaveItem =
  itemId :: "string option"
  rooms :: "string list"
  leaveUserId :: string
  shouldKick :: bool
  kickReason :: "string option"
  leaveRetry :: bool
  deop :: bool
  leaveAttempts :: "nat option"

definition LEAVE_MAX_ATTEMPTS :: nat where
  "LEAVE_MAX_ATTEMPTS = 10"

text \<open>
  What \<open>handleLeaveQueue\<close> does to the outside, in order: the bot's \<open>kick(roomId, userId,
  reason)\<close>, the user's own \<open>leave(roomId)\<close>, the removal of power levels, the delay (had
  the runtime one), and
  \<open>leaveQueue.enqueue(item.id + item.attempts, {...item, rooms: retryRooms})\<close>.
\<close>

datatype room_call =
    Kick string string "string option"
  | Leave string string
  | RemovePowerLevels string string
  | LogPowerLevelsFailed
  | LogNotRetrying
  | Delay
  | LogHitAttemptLimit
  | Enqueue "string option" nat LeaveItem

text \<open>The homeserver's answers, per room: to the kick or leave, and to the power level change.\<close>

record homeserver =
  membershipCall :: "string \<Rightarrow> call_result"
  powerLevelsOk :: "string \<Rightarrow> bool"

text \<open>
  \<open>const is400 = ex.httpStatus - 400 > 0 && ex.httpStatus - 400 < 100\<close>; with no
  \<open>httpStatus\<close> the difference is \<open>NaN\<close> and both comparisons are false.
\<close>

definition is400 :: "matrix_error \<Rightarrow> bool" where
  "is400 ex = (case httpStatus ex of None \<Rightarrow> False | Some st \<Rightarrow> st - 400 > 0 \<and> st - 400 < 100)"

text \<open>\<open>!item.retry || ex.errcode === "M_FORBIDDEN" || is400\<close>: the \<open>continue\<close> of the \<open>catch\<close>.\<close>

definition notRetrying :: "LeaveItem \<Rightarrow> matrix_error \<Rightarrow> bool" where
  "notRetrying item ex = (\<not> leaveRetry item \<or> errcode ex = Some ''M_FORBIDDEN'' \<or> is400 ex)"

text \<open>The \<open>try\<close> block for one room: the calls made, and the error the \<open>catch\<close> gets.\<close>

definition leaveRoomAttempt :: "homeserver \<Rightarrow> LeaveItem \<Rightarrow> string \<Rightarrow> room_call list \<times> matrix_error option" where
  "leaveRoomAttempt hs item room =
     (let call = (if shouldKick item then Kick room (leaveUserId item) (kickReason item)
                  else Leave (leaveUserId item) room)
      in case membershipCall hs room of
           Rejected ex \<Rightarrow> ([call], Some ex)
         | Resolved \<Rightarrow>
             if deop item then
               ([call, RemovePowerLevels room (leaveUserId item)]
                  @ (if powerLevelsOk hs room then [] else [LogPowerLevelsFailed]), None)
             else ([call], None))"

text \<open>How the \<open>for\<close> loop of \<open>handleLeaveQueue\<close> is left.\<close>

datatype loop_exit = LoopDone | EarlyReturn | HitAttemptLimit | Threw js_error

text \<open>
  \<open>Promise.delay(...)\<close>: \<open>Promise\<close> is the global promise of the runtime (the file
  imports Bluebird under the name \<open>Bluebird\<close>), and that has no \<open>delay\<close>. The call
  throws a \<open>TypeError\<close>, which rejects the promise of \<open>handleLeaveQueue\<close>.
\<close>

definition promiseDelay :: "js_error + unit" where
  "promiseDelay = Inl TypeError"

text \<open>\<open>retryRooms.length < 0\<close>, on the number the array's length is.\<close>

definition lengthBelowZero :: "string list \<Rightarrow> bool" where
  "lengthBelowZero retryRooms = (int (length retryRooms) < 0)"

definition withCalls ::
  "room_call list \<Rightarrow> room_call list \<times> loop_exit \<times> string list \<times> nat
     \<Rightarrow> room_call list \<times> loop_exit \<times> string list \<times> nat" where
  "withCalls cs res = (case res of (calls, ex, rr, n) \<Rightarrow> (cs @ calls, ex, rr, n))"

text \<open>
  The loop over \<open>item.rooms\<close>, with \<open>retryRooms\<close> and \<open>item.attempts\<close> as they stand when
  the room is reached. The result: the calls, the exit, and \<open>retryRooms\<close> and
  \<open>item.attempts\<close> at the end. The delay, the increment and the \<open>enqueue\<close> are inside the
  loop body, as in the source: only the \<open>continue\<close> of the \<open>catch\<close> goes on to the next room
  without them. Every enqueued item holds the one \<open>retryRooms\<close> array; the model records
  its contents at the time of the call, and the array at the end.
\<close>

fun leaveLoop ::
  "homeserver \<Rightarrow> LeaveItem \<Rightarrow> string list \<Rightarrow> string list \<Rightarrow> nat
     \<Rightarrow> room_call list \<times> loop_exit \<times> string list \<times> nat" where
  "leaveLoop hs item [] retryRooms n = ([], LoopDone, retryRooms, n)"
| "leaveLoop hs item (room # rest) retryRooms n =
     (case leaveRoomAttempt hs item room of
        (calls, Some ex) \<Rightarrow>
          if notRetrying item ex then
            withCalls (calls @ [LogNotRetrying]) (leaveLoop hs item rest retryRooms n)
          else if lengthBelowZero (retryRooms @ [room]) then
            (calls, EarlyReturn, retryRooms @ [room], n)
          else
            (case promiseDelay of
               Inl e \<Rightarrow> (calls, Threw e, retryRooms @ [room], n)
             | Inr _ \<Rightarrow>
                 if n + 1 \<ge> LEAVE_MAX_ATTEMPTS then
                   (calls @ [Delay, LogHitAttemptLimit], HitAttemptLimit, retryRooms @ [room], n + 1)
                 else
                   withCalls
                     (calls @ [Delay, Enqueue (itemId item) (n + 1)
                          (item\<lparr>leaveAttempts := Some (n + 1), rooms := retryRooms @ [room]\<rparr>)])
                     (leaveLoop hs item rest (retryRooms @ [room]) (n + 1)))
      | (calls, None) \<Rightarrow>
          if lengthBelowZero retryRooms then
            (calls, EarlyReturn, retryRooms, n)
          else
            (case promiseDelay of
               Inl e \<Rightarrow> (calls, Threw e, retryRooms, n)
             | Inr _ \<Rightarrow>
                 if n + 1 \<ge> LEAVE_MAX_ATTEMPTS then
                   (calls @ [Delay, LogHitAttemptLimit], HitAttemptLimit, retryRooms, n + 1)
                 else
                   withCalls
                     (calls @ [Delay, Enqueue (itemId item) (n + 1)
                          (item\<lparr>leaveAttempts := Some (n + 1), rooms := retryRooms\<rparr>)])
                     (leaveLoop hs item rest retryRooms (n + 1))))"

text \<open>\<open>handleLeaveQueue(item)\<close>: \<open>retryRooms = []\<close>, \<open>item.attempts = item.attempts || 0\<close>.\<close>

definition handleLeaveQueue ::
  "homeserver \<Rightarrow> LeaveItem \<Rightarrow> room_call list \<times> loop_exit \<times> string list \<times> nat" where
  "handleLeaveQueue hs item =
     leaveLoop hs item (rooms item) [] (case leaveAttempts item of None \<Rightarrow> 0 | Some n \<Rightarrow> n)"

definition callsOf :: "room_call list \<times> loop_exit \<times> string list \<times> nat \<Rightarrow> room_call list" where
  "callsOf res = fst res"

definition exitOf :: "room_call list \<times> loop_exit \<times> string list \<times> nat \<Rightarrow> loop_exit" where
  "exitOf res = fst (snd res)"

definition retryRoomsOf :: "room_call list \<times> loop_exit \<times> string list \<times> nat \<Rightarrow> string list" where
  "retryRoomsOf res = fst (snd (snd res))"

text \<open>The rooms of every item put back on the queue.\<close>

fun enqueuedRooms :: "room_call list \<Rightarrow> string list" where
  "enqueuedRooms [] = []"
| "enqueuedRooms (Enqueue _ _ item # cs) = rooms item @ enqueuedRooms cs"
| "enqueuedRooms (_ # cs) = enqueuedRooms cs"

fun isKick :: "room_call \<Rightarrow> bool" where
  "isKick (Kick _ _ _) = True"
| "isKick _ = False"

fun isLeave :: "room_call \<Rightarrow> bool" where
  "isLeave (Leave _ _) = True"
| "isLeave _ = False"

text \<open>
  An item put back on the queue is of the same kind as \<open>item\<close>: it kicks or leaves
  as \<open>item\<close> does, and acts on the same user. Every other call counts as the same kind.
\<close>

fun sameKind :: "LeaveItem \<Rightarrow> room_call \<Rightarrow> bool" where
  "sameKind item (Enqueue _ _ again) =
     (shouldKick again = shouldKick item \<and> leaveUserId again = leaveUserId item
      \<and> kickReason again = kickReason item)"
| "sameKind item _ = True"

text \<open>The calls that change a membership: kicks and leaves.\<close>

fun isMembershipCall :: "room_call \<Rightarrow> bool" where
  "isMembershipCall (Kick _ _ _) = True"
| "isMembershipCall (Leave _ _) = True"
| "isMembershipCall _ = False"

text \<open>The reason \<open>onKick\<close> gives the bot's kick.\<close>

definition kickReasonText :: "string \<Rightarrow> string \<Rightarrow> string \<Rightarrow> string" where
  "kickReasonText kickerNick chan why =
     kickerNick @ '' has kicked this user from '' @ chan @ '' ('' @ why @ '')''"

text \<open>
  \<open>onKick(req, server, kicker, kickee, chan, reason)\<close>: the key and the item it puts on
  \<open>leaveQueue\<close>, or \<open>None\<close> where it returns without. \<open>clientByNick\<close> is the client pool's
  \<open>getBridgedClientByNick(server, _)\<close> and \<open>matrixUserOf\<close> the id of
  \<open>getMatrixUser(_)\<close>.
\<close>

definition onKick ::
  "room_row list \<Rightarrow> (string \<Rightarrow> BridgedClient option) \<Rightarrow> (IrcUser \<Rightarrow> string) \<Rightarrow> IrcServer
     \<Rightarrow> IrcUser \<Rightarrow> IrcUser \<Rightarrow> string \<Rightarrow> string \<Rightarrow> (string \<times> LeaveItem) option" where
  "onKick rows clientByNick matrixUserOf server kicker kickee chan why =
     (if isVirtual kickee then
        (let matrixRooms = getMatrixRoomsForChannel rows server chan
         in if matrixRooms = [] then None
            else case clientByNick (nick kickee) of
                   None \<Rightarrow> None
                 | Some cli \<Rightarrow>
                     if isBot cli then None
                     else Some (chan @ clientUserId cli,
                       \<lparr>itemId = None, rooms = matrixRooms, leaveUserId = clientUserId cli,
                        shouldKick = True,
                        kickReason = Some (kickReasonText (nick kicker) chan why),
                        leaveRetry = True, deop = False, leaveAttempts = None\<rparr>))
      else
        (let matrixUser = matrixUserOf kickee;
             matrixRooms = getMatrixRoomsForChannel rows server chan
         in if matrixRooms = [] then None
            else Some (chan @ matrixUser,
              \<lparr>itemId = None, rooms = matrixRooms, leaveUserId = matrixUser,
               shouldKick = False, kickReason = None,
               leaveRetry = True, deop = True, leaveAttempts = None\<rparr>)))"

text \<open>The calls on the room side that a kick on IRC leads to, once the queue runs the item.\<close>

definition onKickCalls ::
  "homeserver \<Rightarrow> (string \<times> LeaveItem) option \<Rightarrow> room_call list" where
  "onKickCalls hs queued =
     (case queued of None \<Rightarrow> [] | Some (key, item) \<Rightarrow> callsOf (handleLeaveQueue hs item))"

subsection \<open>Concrete inputs for kicks and leaves\<close>

definition alice :: IrcUser where
  "alice = \<lparr>nick = ''alice'', isVirtual = False\<rparr>"

text \<open>The virtual IRC client of the Matrix user \<open>@bob:hs\<close>.\<close>

definition bobOnIrc :: IrcUser where
  "bobOnIrc = \<lparr>nick = ''M-bob'', isVirtual = True\<rparr>"

definition examplePool :: "string \<Rightarrow> BridgedClient option" where
  "examplePool n = (if n = ''M-bob'' then Some \<lparr>clientUserId = ''@bob:hs'', isBot = False\<rparr> else None)"

definition exampleMatrixUserOf :: "IrcUser \<Rightarrow> string" where
  "exampleMatrixUserOf u = ''@irc_'' @ nick u @ '':hs''"

definition resolving :: homeserver where
  "resolving = \<lparr>membershipCall = (\<lambda>_. Resolved), powerLevelsOk = (\<lambda>_. True)\<rparr>"

text \<open>A homeserver that answers every kick or leave with 400 Bad Request.\<close>

definition badRequest :: matrix_error where
  "badRequest = \<lparr>errcode = Some ''M_UNKNOWN'', httpStatus = Some 400\<rparr>"

definition rejecting400 :: homeserver where
  "rejecting400 = \<lparr>membershipCall = (\<lambda>_. Rejected badRequest), powerLevelsOk = (\<lambda>_. True)\<rparr>"

text \<open>The item \<open>onPart\<close> queues for a real IRC user who left \<open>#a\<close>.\<close>

definition partItem :: LeaveItem where
  "partItem =
     \<lparr>itemId = Some ''#aalice'', rooms = [''!r:hs''], leaveUserId = ''@irc_alice:hs'',
      shouldKick = False, kickReason = Some ''Client PARTed from channel'',
      leaveRetry = True, deop = True, leaveAttempts = None\<rparr>"

text \<open>The item \<open>onKick\<close> queues when \<open>alice\<close> kicks \<open>M-bob\<close> from \<open>#a\<close> for "spam".\<close>

definition bobKickItem :: LeaveItem where
  "bobKickItem =
     \<lparr>itemId = None, rooms = [''!r:hs''], leaveUserId = ''@bob:hs'', shouldKick = True,
      kickReason = Some ''alice has kicked this user from #a (spam)'',
      leaveRetry = True, deop = False, leaveAttempts = None\<rparr>"

text \<open>
  A room whose kick or leave was rejected with an error that the \<open>catch\<close> does not
  \<open>continue\<close> on: the rooms that \<open>retryRooms.push(room)\<close> is reached for.
\<close>

definition retryable :: "homeserver \<Rightarrow> LeaveItem \<Rightarrow> string \<Rightarrow> bool" where
  "retryable hs item r =
     (case membershipCall hs r of Resolved \<Rightarrow> False | Rejected ex \<Rightarrow> \<not> notRetrying item ex)"

section \<open>IrcHandler: private messages and the PM room promises\<close>

text \<open>
  A promise as it stands at some moment: pending, resolved to a PM room (by its id), or
  rejected.
\<close>

datatype promise_state = Pending | Fulfilled string | Failed js_error

text \<open>
  The part of the handler's state that first-contact private messages touch:
  \<open>pmRoomPromises\<close> (key to promise, a promise held by a handle), the promises themselves,
  and the \<open>createRoom\<close> calls made so far, each with the inviting virtual user, the
  invited recipient and the sender's nick.
\<close>

record pm_state =
  pmRoomPromises :: "string \<rightharpoonup> nat"
  promiseStates :: "nat \<rightharpoonup> promise_state"
  nextPromise :: nat
  createRoomCalls :: "(string \<times> string \<times> string) list"

text \<open>
  \<open>p.isRejected()\<close>: the stored \<open>p\<close> is what the \<open>async\<close> function \<open>createPmRoom\<close>
  returned, a promise of the runtime (the field is typed \<open>Promise<unknown>\<close>). Such a
  promise has no \<open>isRejected\<close>: the call throws a \<open>TypeError\<close>, whatever state the promise
  is in.
\<close>

definition isRejected :: "pm_state \<Rightarrow> nat \<Rightarrow> js_error + bool" where
  "isRejected st p = Inl TypeError"

text \<open>\<open>bridgedIrcClient.userId + ' ' + virtualMatrixUser.getId()\<close>\<close>

definition pmRoomPromiseId :: "string \<Rightarrow> string \<Rightarrow> string" where
  "pmRoomPromiseId toUserId fromUserId = toUserId @ '' '' @ fromUserId"

text \<open>
  \<open>createPmRoom(toUserId, fromUserId, fromUserNick, server)\<close> is an \<open>async\<close> function: the
  call issues \<open>createRoom\<close> at once and returns a new pending promise, which settles
  later (after \<open>createRoom\<close> and \<open>setPmRoom\<close>).
\<close>

definition createPmRoom :: "pm_state \<Rightarrow> string \<Rightarrow> string \<Rightarrow> string \<Rightarrow> nat \<times> pm_state" where
  "createPmRoom st toUserId fromUserId fromUserNick =
     (nextPromise st,
      st\<lparr>promiseStates := (promiseStates st)(nextPromise st \<mapsto> Pending),
         nextPromise := nextPromise st + 1,
         createRoomCalls := createRoomCalls st @ [(fromUserId, toUserId, fromUserNick)]\<rparr>)"

text \<open>What the handler goes on with: the room the store knew, or the promise it awaits.\<close>

datatype pm_target = ExistingRoom string | AwaitPromise nat

text \<open>
  \<open>onPrivateMessage\<close> from the answer of \<open>getMatrixPmRoom\<close> (\<open>pmRoom\<close>, \<open>None\<close> for
  \<open>null\<close>) to \<open>await p\<close>: \<open>if (!p || p.isRejected())\<close> creates the room and stores the
  promise. With no stored promise \<open>!p\<close> decides and \<open>isRejected\<close> is not called. An error
  thrown here rejects the handler, which then neither awaits nor relays. Nothing is
  awaited in between, so no other handler runs inside this step.
\<close>

definition onPrivateMessageRoom ::
  "pm_state \<Rightarrow> string option \<Rightarrow> string \<Rightarrow> string \<Rightarrow> string
     \<Rightarrow> js_error + (pm_state \<times> pm_target)" where
  "onPrivateMessageRoom st pmRoom toUserId fromUserId fromUserNick =
     (case pmRoom of
        Some room \<Rightarrow> Inr (st, ExistingRoom room)
      | None \<Rightarrow>
          (let pid = pmRoomPromiseId toUserId fromUserId
           in case pmRoomPromises st pid of
                None \<Rightarrow>
                  (case createPmRoom st toUserId fromUserId fromUserNick of
                     (h, st') \<Rightarrow>
                       Inr (st'\<lparr>pmRoomPromises := (pmRoomPromises st')(pid \<mapsto> h)\<rparr>, AwaitPromise h))
              | Some p \<Rightarrow>
                  (case isRejected st p of
                     Inl e \<Rightarrow> Inl e
                   | Inr rejected \<Rightarrow>
                       if rejected then
                         (case createPmRoom st toUserId fromUserId fromUserNick of
                            (h, st') \<Rightarrow>
                              Inr (st'\<lparr>pmRoomPromises := (pmRoomPromises st')(pid \<mapsto> h)\<rparr>,
                                   AwaitPromise h))
                       else Inr (st, AwaitPromise p))))"

text \<open>
  A promise settles, once; a later settlement of the same promise changes nothing.
\<close>

definition settle :: "pm_state \<Rightarrow> nat \<Rightarrow> promise_state \<Rightarrow> pm_state" where
  "settle st h v =
     (if promiseStates st h = Some Pending
      then st\<lparr>promiseStates := (promiseStates st)(h \<mapsto> v)\<rparr> else st)"

text \<open>
  \<open>pmRoom = await p\<close> and the relay: the room \<open>sendMatrixAction\<close> is called with, once
  the awaited promise has resolved.
\<close>

definition relayRoom :: "pm_state \<Rightarrow> pm_target \<Rightarrow> string option" where
  "relayRoom st t =
     (case t of
        ExistingRoom room \<Rightarrow> Some room
      | AwaitPromise h \<Rightarrow>
          (case promiseStates st h of Some (Fulfilled room) \<Rightarrow> Some room | _ \<Rightarrow> None))"

definition emptyPmState :: pm_state where
  "emptyPmState =
     \<lparr>pmRoomPromises = Map.empty, promiseStates = Map.empty, nextPromise = 0,
      createRoomCalls = []\<rparr>"

text \<open>
  Two first-contact messages from \<open>alice\<close> on IRC to \<open>@bob:hs\<close>, both past the store
  lookup before a PM room was stored. The second is handled while the promise of the
  first is pending, or after it resolved to \<open>!pm:hs\<close>.
\<close>

definition firstPm :: "js_error + (pm_state \<times> pm_target)" where
  "firstPm = onPrivateMessageRoom emptyPmState None ''@bob:hs'' ''@irc_alice:hs'' ''alice''"

definition afterFirstPm :: pm_state where
  "afterFirstPm = (case firstPm of Inr (st, _) \<Rightarrow> st | Inl _ \<Rightarrow> emptyPmState)"

definition secondPm :: "js_error + (pm_state \<times> pm_target)" where
  "secondPm = onPrivateMessageRoom afterFirstPm None ''@bob:hs'' ''@irc_alice:hs'' ''alice''"

definition secondPmAfterRoom :: "js_error + (pm_state \<times> pm_target)" where
  "secondPmAfterRoom =
     onPrivateMessageRoom (settle afterFirstPm 0 (Fulfilled ''!pm:hs''))
       None ''@bob:hs'' ''@irc_alice:hs'' ''alice''"

section \<open>IrcHandler: topics\<close>

text \<open>
  A mapping entry as \<open>onTopic\<close> gets it from the store: the Matrix room's id and the
  topic cached with it (\<open>entry.matrix.topic\<close>, \<open>undefined\<close> when none was stored).
\<close>

record Entry =
  matrixId :: string
  matrixTopic :: "string option"

text \<open>
  The calls of \<open>serviceTopicQueue\<close>: \<open>setRoomTopic(roomId, topic)\<close> through the intent of
  the sender's Matrix user (\<open>Some\<close>) or of the bot (\<open>None\<close>), and \<open>upsertMatrixRoom\<close>.
\<close>

datatype topic_call =
    SetRoomTopic "string option" string string
  | UpsertMatrixRoom string string
  | LogTopicAlreadySet string
  | LogErrorStoringRoom string

text \<open>The collaborators' answers, per room.\<close>

record topic_remote =
  senderCanSet :: "string \<Rightarrow> bool"
  botCanSet :: "string \<Rightarrow> bool"
  upsertOk :: "string \<Rightarrow> bool"

text \<open>
  One entry of \<open>serviceTopicQueue(item)\<close>: the calls made for it, the entry in memory
  afterwards (\<open>entry.matrix.topic = item.topic\<close> is set before the upsert), and the row as
  the store holds it afterwards (changed only by an upsert that resolved).
\<close>

definition serviceTopicEntry ::
  "topic_remote \<Rightarrow> string \<Rightarrow> string \<Rightarrow> Entry \<Rightarrow> topic_call list \<times> Entry \<times> Entry" where
  "serviceTopicEntry tr matrixUser tp entry =
     (let room = matrixId entry;
          updated = entry\<lparr>matrixTopic := Some tp\<rparr>;
          stored = (if upsertOk tr room then updated else entry)
      in if matrixTopic entry = Some tp then ([LogTopicAlreadySet room], entry, entry)
         else if senderCanSet tr room then
           ([SetRoomTopic (Some matrixUser) room tp, UpsertMatrixRoom room tp], updated, stored)
         else if botCanSet tr room then
           ([SetRoomTopic (Some matrixUser) room tp, SetRoomTopic None room tp,
             UpsertMatrixRoom room tp], updated, stored)
         else
           ([SetRoomTopic (Some matrixUser) room tp, SetRoomTopic None room tp,
             LogErrorStoringRoom room], entry, entry))"

text \<open>
  \<open>serviceTopicQueue\<close> over \<open>item.entries\<close>: all calls (entry by entry) and the rows as
  stored afterwards. A rejection is caught and logged, never thrown.
\<close>

definition serviceTopicQueue ::
  "topic_remote \<Rightarrow> string \<Rightarrow> string \<Rightarrow> Entry list \<Rightarrow> topic_call list \<times> Entry list" where
  "serviceTopicQueue tr matrixUser tp ents =
     (concat (map (\<lambda>e. fst (serviceTopicEntry tr matrixUser tp e)) ents),
      map (\<lambda>e. snd (snd (serviceTopicEntry tr matrixUser tp e))) ents)"

text \<open>
  \<open>new MatrixUser(...)\<close> in \<open>onTopic\<close>: the file imports \<open>MatrixRoom\<close> and \<open>Bridge\<close> from
  the bridge library, not \<open>MatrixUser\<close>, and declares no such name itself. Evaluating the
  name throws a \<open>ReferenceError\<close>.
\<close>

definition newMatrixUser :: "string \<Rightarrow> js_error + string" where
  "newMatrixUser sender = Inl ReferenceError"

text \<open>
  \<open>onTopic\<close>, run to the end of its queue item: \<open>ents\<close> are the rows
  \<open>getMappingsForChannelByOrigin\<close> answers for the channel, \<open>sender\<close> is
  \<open>server.getUserIdFromNick(fromUser.nick)\<close>. Without rows it returns at once; with rows
  it builds the sender's \<open>MatrixUser\<close> and then queues the item. The result: what the
  handler is rejected with (if anything), the calls, and the rows as stored afterwards.
\<close>

definition onTopic ::
  "topic_remote \<Rightarrow> Entry list \<Rightarrow> string \<Rightarrow> string
     \<Rightarrow> js_error option \<times> topic_call list \<times> Entry list" where
  "onTopic tr ents sender tp =
     (if ents = [] then (None, [], ents)
      else case newMatrixUser sender of
             Inl e \<Rightarrow> (Some e, [], ents)
           | Inr matrixUser \<Rightarrow>
               (case serviceTopicQueue tr matrixUser tp ents of
                  (calls, stored) \<Rightarrow> (None, calls, stored)))"

text \<open>
  Topic propagation twice in succession: the second run reads what the first stored. The
  calls of the first run and of the second.
\<close>

definition onTopicTwice ::
  "topic_remote \<Rightarrow> Entry list \<Rightarrow> string \<Rightarrow> string \<Rightarrow> topic_call list \<times> topic_call list" where
  "onTopicTwice tr ents sender tp =
     (case onTopic tr ents sender tp of
        (_, calls1, ents1) \<Rightarrow> (calls1, fst (snd (onTopic tr ents1 sender tp))))"

fun isSetRoomTopic :: "topic_call \<Rightarrow> bool" where
  "isSetRoomTopic (SetRoomTopic _ _ _) = True"
| "isSetRoomTopic _ = False"

subsection \<open>Concrete inputs for topics\<close>

definition everyoneCan :: topic_remote where
  "everyoneCan = \<lparr>senderCanSet = (\<lambda>_. True), botCanSet = (\<lambda>_. True), upsertOk = (\<lambda>_. True)\<rparr>"

definition untitledRoom :: "Entry list" where
  "untitledRoom = [\<lparr>matrixId = ''!r:hs'', matrixTopic = None\<rparr>]"

section \<open>IrcHandler: the mention cache of onMessage\<close>

text \<open>\<open>mentionMode\<close>: \<open>"on"\<close>, \<open>"off"\<close> or \<open>"force-off"\<close>.\<close>

datatype mention_mode = MentionsOn | MentionsOff | MentionsForceOff

definition NICK_USERID_CACHE_MAX :: nat where
  "NICK_USERID_CACHE_MAX = 512"

text \<open>
  \<open>nickUserIdMapCache\<close> is a \<open>Map<string, unknown>\<close>: its entries in insertion order, the
  keys strings, no key twice. A value is a nick to user id mapping.
\<close>

type_synonym nick_mapping = "(string \<times> string) list"

type_synonym nick_cache = "(string \<times> nick_mapping) list"

text \<open>What \<open>Map.prototype.delete\<close> may be handed: a string, or \<open>undefined\<close>.\<close>

datatype js_key = KUndefined | KString string

definition mapHas :: "nick_cache \<Rightarrow> string \<Rightarrow> bool" where
  "mapHas cache k = (map_of cache k \<noteq> None)"

definition mapGet :: "nick_cache \<Rightarrow> string \<Rightarrow> nick_mapping option" where
  "mapGet cache k = map_of cache k"

text \<open>\<open>set\<close> keeps the position of a key the map has, and appends a new one.\<close>

fun mapSet :: "nick_cache \<Rightarrow> string \<Rightarrow> nick_mapping \<Rightarrow> nick_cache" where
  "mapSet [] k v = [(k, v)]"
| "mapSet ((k', v') # cache) k v =
     (if k' = k then (k, v) # cache else (k', v') # mapSet cache k v)"

text \<open>\<open>delete(undefined)\<close> finds no entry in a map whose keys are strings.\<close>

fun mapDelete :: "nick_cache \<Rightarrow> js_key \<Rightarrow> nick_cache" where
  "mapDelete cache KUndefined = cache"
| "mapDelete cache (KString k) = filter (\<lambda>kv. fst kv \<noteq> k) cache"

text \<open>
  \<open>this.nickUserIdMapCache.keys()[0]\<close>: \<open>keys()\<close> answers an iterator, not an array, and an
  iterator has no property \<open>0\<close>.
\<close>

definition keysAtZero :: "nick_cache \<Rightarrow> js_key" where
  "keysAtZero cache = KUndefined"

text \<open>
  The cache lookup of \<open>onMessage\<close>, from \<open>let mapping = null\<close> to the eviction: the cache
  afterwards and \<open>mapping\<close>. \<open>computed\<close> is the mapping that the loop over the channel's
  nicks builds (from the client pool and the users' feature flags) on a miss.
\<close>

definition onMessageMapping ::
  "mention_mode \<Rightarrow> nick_cache \<Rightarrow> string \<Rightarrow> string \<Rightarrow> nick_mapping
     \<Rightarrow> nick_cache \<times> nick_mapping option" where
  "onMessageMapping mode cache serverDomain channel computed =
     (let k = serverDomain @ '':'' @ channel
      in if mapHas cache k then (cache, mapGet cache k)
         else if mode \<noteq> MentionsForceOff then
           (let cache1 = mapSet cache k computed
            in (if length cache1 > NICK_USERID_CACHE_MAX
                then mapDelete cache1 (keysAtZero cache1) else cache1,
                Some computed))
         else (cache, None))"

text \<open>
  A cache that holds 512 channels of one server: \<open>#x\<close>, \<open>#xx\<close>, \<open>#xxx\<close>, ...
\<close>

definition fullCache :: nick_cache where
  "fullCache = map (\<lambda>i. (''irc.example:#'' @ replicate (Suc i) CHR ''x'', [])) [0..<512]"

section \<open>Properties of the visibility syncer\<close>

lemma firstMappingNetworkId_reset:
  "mappings vm = Map.empty \<Longrightarrow> firstMappingNetworkId vm r = Inl TypeError"
  by (simp add: firstMappingNetworkId_def)

lemma roomTask_reset:
  "mappings vm = Map.empty \<Longrightarrow> roomTask rem cur correct vm r = Inl TypeError"
  by (simp add: roomTask_def firstMappingNetworkId_reset)

lemma runTasks_reset:
  "mappings vm = Map.empty \<Longrightarrow>
   runTasks rem cur correct rs vm = (if rs = [] then None else Some TypeError, [], vm)"
  by (induction rs) (simp_all add: roomTask_reset)

lemma correctState_unknown:
  "channelIsSecret vm channel = None \<Longrightarrow> correctState vm channel = Public"
  by (simp add: correctState_def)

text \<open>
  C1 (the code at the failing input). Room \<open>!r:hs\<close> is bridged to \<open>#a\<close> and \<open>#b\<close>, and
  \<open>#a\<close> is cached as secret. When \<open>#b\<close> is reported as not secret, \<open>updateVisibilityMap\<close>
  reconciles the rooms of \<open>#b\<close> only from the flag of \<open>#b\<close>: the visibility solved for
  \<open>!r:hs\<close> is public, although a secret channel is mapped to it.
\<close>

theorem room_of_secret_channel_solved_public:
  "(exampleServer, ''#a'') \<in> set (getIrcChannelsForRoomId exampleServerMappings sharedRoomRows ''!r:hs'')
   \<and> (exampleServer, ''#b'') \<in> set (getIrcChannelsForRoomId exampleServerMappings sharedRoomRows ''!r:hs'')
   \<and> channelIsSecret secretA ''#a'' = Some True
   \<and> getMatrixRoomsForChannel sharedRoomRows exampleServer ''#b'' = [''!r:hs'']
   \<and> map_sum id fst
        (updateVisibilityMap sharedRoomRows (Inr Map.empty) allOk secretA
           True ''#b'' (JBool False) ''#b'' exampleServer)
       = Inr [LogSolved ''#b'' ''net'' Public, LogFailedSync ''#b'']"
  by (simp add: updateVisibilityMap_def afterChange_def solveVisibility_def Let_def
        getMatrixRoomsForChannel_def getIrcChannelsForRoomId_def sharedRoomRows_def secretA_def
        exampleServerMappings_def
        exampleServer_def emptyVisibilityMap_def roomTask_def firstMappingNetworkId_def
        correctState_def)

text \<open>
  C2 (the code at the failing input). No mode of \<open>#a\<close> was ever observed: the cache has
  no entry for it. \<open>solveVisibility\<close> reads the missing entry as falsy and solves the
  rooms of \<open>#a\<close> to public, not to private.
\<close>

theorem unobserved_channel_solved_public:
  "channelIsSecret emptyVisibilityMap ''#a'' = None
   \<and> getMatrixRoomsForChannel exampleRows exampleServer ''#a'' = [''!r:hs'']
   \<and> correctState emptyVisibilityMap ''#a'' = Public
   \<and> fst (snd (solveVisibility exampleRows (Inr Map.empty) allOk emptyVisibilityMap ''#a'' exampleServer))
       = [LogSolved ''#a'' ''net'' Public]"
  by (simp add: solveVisibility_def Let_def getMatrixRoomsForChannel_def exampleRows_def
        exampleServer_def emptyVisibilityMap_def roomTask_def firstMappingNetworkId_def
        correctState_def)

text \<open>
  C3. Whenever the channel has at least one mapped room, the promise of
  \<open>solveVisibility\<close> is rejected: \<open>mappings\<close> was reset to the empty object and has no
  entry for any mapped room, so every per-room task throws a \<open>TypeError\<close> on
  \<open>mappings[roomId][0]\<close> (this is the rejection whenever the store answered
  \<open>getRoomsVisibility\<close>), no directory update and no store write is among the calls
  issued, and \<open>updateVisibilityMap\<close> catches the rejection and only logs it.
\<close>

theorem solveVisibility_throws_before_any_write:
  assumes "getMatrixRoomsForChannel rows server channel \<noteq> []"
  shows "\<exists>err effs vm'.
           solveVisibility rows stored rem vm channel server = (Some err, effs, vm')
         \<and> (\<forall>known. stored = Inr known \<longrightarrow> err = TypeError)
         \<and> (\<forall>r \<in> set (getMatrixRoomsForChannel rows server channel).
               mappings vm' r = None \<and> (\<forall>cur c. roomTask rem cur c vm' r = Inl TypeError))
         \<and> \<not> list_ex isVisibilityWrite effs
         \<and> afterChange rows stored rem True vm channel server = (effs @ [LogFailedSync channel], vm')"
proof (cases stored)
  case (Inl e)
  then show ?thesis
    by (simp add: solveVisibility_def afterChange_def Let_def roomTask_reset)
next
  case (Inr known)
  then show ?thesis using assms
    by (simp add: solveVisibility_def afterChange_def Let_def roomTask_reset runTasks_reset)
qed

theorem solveVisibility_throws_witness:
  "getMatrixRoomsForChannel exampleRows exampleServer ''#a'' \<noteq> []
   \<and> fst (solveVisibility exampleRows (Inr Map.empty) allOk emptyVisibilityMap ''#a'' exampleServer)
       = Some TypeError
   \<and> fst (snd (solveVisibility exampleRows (Inr Map.empty) allOk emptyVisibilityMap ''#a'' exampleServer))
       = [LogSolved ''#a'' ''net'' Public]
   \<and> fst (afterChange exampleRows (Inr Map.empty) allOk True emptyVisibilityMap ''#a'' exampleServer)
       = [LogSolved ''#a'' ''net'' Public, LogFailedSync ''#a'']"
proof -
  have h: "getMatrixRoomsForChannel exampleRows exampleServer ''#a'' \<noteq> []"
    by (simp add: getMatrixRoomsForChannel_def exampleRows_def exampleServer_def)
  from solveVisibility_throws_before_any_write [OF h, of "Inr Map.empty" allOk emptyVisibilityMap]
  obtain err effs vm' where
    s: "solveVisibility exampleRows (Inr Map.empty) allOk emptyVisibilityMap ''#a'' exampleServer
          = (Some err, effs, vm')"
    and e: "err = TypeError"
    and a: "afterChange exampleRows (Inr Map.empty) allOk True emptyVisibilityMap ''#a'' exampleServer
          = (effs @ [LogFailedSync ''#a''], vm')"
    by blast
  have l: "fst (snd (solveVisibility exampleRows (Inr Map.empty) allOk emptyVisibilityMap ''#a'' exampleServer))
       = [LogSolved ''#a'' ''net'' Public]"
    by (simp add: solveVisibility_def Let_def getMatrixRoomsForChannel_def exampleRows_def
        exampleServer_def emptyVisibilityMap_def roomTask_def firstMappingNetworkId_def
        correctState_def)
  show ?thesis using h s e a l by simp
qed

section \<open>Properties of the membership queue\<close>

lemma requeueCount_appservice_bound:
  "attempts item \<le> ATTEMPTS_LIMIT \<Longrightarrow>
   requeueCount serviceQueue results item \<le> ATTEMPTS_LIMIT - attempts item"
proof (induction results arbitrary: item)
  case Nil
  then show ?case by simp
next
  case (Cons res results)
  show ?case
  proof (cases "serviceQueue item res")
    case Serviced
    then show ?thesis by simp
  next
    case (Thrown ex)
    then show ?thesis by simp
  next
    case (Requeued item')
    then have a: "attempts item' = attempts item + 1" and lt: "attempts item \<noteq> ATTEMPTS_LIMIT"
      by (auto simp: serviceQueue_def shouldRetry_def split: option.splits if_splits)
    with Cons.prems have "attempts item' \<le> ATTEMPTS_LIMIT" by simp
    from Cons.IH [OF this] a lt Cons.prems Requeued show ?thesis by simp
  qed
qed

lemma requeueCount_appservice_join:
  "itemType item = JoinType \<Longrightarrow> attempts item \<le> ATTEMPTS_LIMIT \<Longrightarrow>
   errcode ex \<noteq> Some ''M_FORBIDDEN'' \<Longrightarrow> httpStatus ex \<noteq> Some 403 \<Longrightarrow>
   requeueCount serviceQueue (replicate n (Rejected ex)) item = min n (ATTEMPTS_LIMIT - attempts item)"
proof (induction n arbitrary: item)
  case 0
  then show ?case by simp
next
  case (Suc n)
  show ?case
  proof (cases "attempts item = ATTEMPTS_LIMIT")
    case True
    then show ?thesis
      by (simp add: serviceQueue_def caughtAppservice_def shouldRetry_def Suc.prems)
  next
    case False
    let ?item' = "item\<lparr>attempts := attempts item + 1\<rparr>"
    have s: "serviceQueue item (Rejected ex) = Requeued ?item'"
      using False Suc.prems by (simp add: serviceQueue_def caughtAppservice_def shouldRetry_def)
    have "requeueCount serviceQueue (replicate n (Rejected ex)) ?item'
            = min n (ATTEMPTS_LIMIT - attempts ?item')"
      using False Suc.prems by (intro Suc.IH) simp_all
    then show ?thesis using s False Suc.prems by simp
  qed
qed

lemma requeueCount_bridge_unbounded:
  "shouldRetry ex (attempts item) \<Longrightarrow>
   requeueCount serviceQueueBridge (replicate n (Rejected ex)) item = n"
  by (induction n) (simp_all add: serviceQueueBridge_def caughtBridge_def)

lemma forbidden_never_requeued:
  "errcode ex = Some ''M_FORBIDDEN'' \<or> httpStatus ex = Some 403 \<Longrightarrow>
   (\<forall>item'. serviceQueue item (Rejected ex) \<noteq> Requeued item')
   \<and> (\<forall>item'. serviceQueueBridge item (Rejected ex) \<noteq> Requeued item')"
  by (auto simp: serviceQueue_def serviceQueueBridge_def caughtAppservice_def caughtBridge_def
      shouldRetry_def split: membership_type.splits)

text \<open>
  C4 (the code at the failing input). A join whose remote call is rejected with HTTP 500
  on each of eleven servicings: the \<open>Bridge\<close> version puts the item back unchanged, its
  attempt count stays 0 and it is put back an eleventh time, while the \<open>Appservice\<close>
  version increments the count and stops after the tenth.
\<close>

theorem bridge_join_requeued_eleventh_time:
  "requeueCount serviceQueueBridge (replicate 11 (Rejected serverError)) (join ''!r:hs'' (Some ''@u:hs'') True) = 11
   \<and> requeueCount serviceQueue (replicate 11 (Rejected serverError)) (join ''!r:hs'' (Some ''@u:hs'') True) = 10"
proof -
  have r: "shouldRetry serverError (attempts (join ''!r:hs'' (Some ''@u:hs'') True))"
    by (simp add: shouldRetry_def serverError_def join_def ATTEMPTS_LIMIT_def)
  have a: "requeueCount serviceQueue (replicate 11 (Rejected serverError)) (join ''!r:hs'' (Some ''@u:hs'') True)
        = min 11 (ATTEMPTS_LIMIT - attempts (join ''!r:hs'' (Some ''@u:hs'') True))"
    by (rule requeueCount_appservice_join) (simp_all add: join_def serverError_def ATTEMPTS_LIMIT_def)
  show ?thesis
    using requeueCount_bridge_unbounded [OF r, of 11] a
    by (simp add: join_def ATTEMPTS_LIMIT_def)
qed

section \<open>Properties of kicks and the leave queue\<close>

lemma lengthBelowZero_never: "lengthBelowZero rr = False"
  by (simp add: lengthBelowZero_def)

lemma exitOf_withCalls: "exitOf (withCalls cs res) = exitOf res"
  by (cases res) (simp add: exitOf_def withCalls_def)

lemma callsOf_withCalls: "callsOf (withCalls cs res) = cs @ callsOf res"
  by (cases res) (simp add: callsOf_def withCalls_def)

lemma retryRoomsOf_withCalls: "retryRoomsOf (withCalls cs res) = retryRoomsOf res"
  by (cases res) (simp add: retryRoomsOf_def withCalls_def)

lemma callsOf_tuple: "callsOf (cs, x, rr, n) = cs"
  by (simp add: callsOf_def)

lemma exitOf_tuple: "exitOf (cs, x, rr, n) = x"
  by (simp add: exitOf_def)

lemma retryRoomsOf_tuple: "retryRoomsOf (cs, x, rr, n) = rr"
  by (simp add: retryRoomsOf_def)

lemma leaveLoop_never_early: "exitOf (leaveLoop hs item rs rr n) \<noteq> EarlyReturn"
proof (induction rs arbitrary: rr n)
  case Nil
  show ?case by (simp add: exitOf_def)
next
  case (Cons r rs)
  show ?case
  proof (cases "leaveRoomAttempt hs item r")
    case (Pair calls caught)
    show ?thesis
    proof (cases caught)
      case None
      with Pair Cons.IH show ?thesis
        by (auto simp: lengthBelowZero_never exitOf_withCalls exitOf_tuple split: sum.splits)
    next
      case (Some ex)
      with Pair Cons.IH show ?thesis
        by (auto simp: lengthBelowZero_never exitOf_withCalls exitOf_tuple split: sum.splits)
    qed
  qed
qed

text \<open>
  C10. \<open>retryRooms.length < 0\<close> is false for every array, so no run of
  \<open>handleLeaveQueue\<close> leaves the loop through the \<open>return\<close> that the check guards.
\<close>

theorem retryRooms_length_check_is_dead:
  "lengthBelowZero retryRooms = False \<and> exitOf (handleLeaveQueue hs item) \<noteq> EarlyReturn"
  by (simp add: lengthBelowZero_never handleLeaveQueue_def leaveLoop_never_early)

lemma leaveRoomAttempt_first:
  "\<exists>cs. fst (leaveRoomAttempt hs item r) =
     (if shouldKick item then Kick r (leaveUserId item) (kickReason item)
      else Leave (leaveUserId item) r) # cs"
  by (simp add: leaveRoomAttempt_def Let_def split: call_result.splits)

lemma leaveRoomAttempt_kick_only:
  "shouldKick item \<Longrightarrow> list_all (\<lambda>c. \<not> isLeave c) (fst (leaveRoomAttempt hs item r))"
  by (simp add: leaveRoomAttempt_def Let_def split: call_result.splits)

lemma leaveRoomAttempt_leave_only:
  "\<not> shouldKick item \<Longrightarrow> list_all (\<lambda>c. \<not> isKick c) (fst (leaveRoomAttempt hs item r))"
  by (simp add: leaveRoomAttempt_def Let_def split: call_result.splits)

lemma leaveLoop_kick_only:
  "shouldKick item \<Longrightarrow> list_all (\<lambda>c. \<not> isLeave c) (callsOf (leaveLoop hs item rs rr n))"
proof (induction rs arbitrary: rr n)
  case Nil
  show ?case by (simp add: callsOf_def)
next
  case (Cons r rs)
  obtain calls caught where p: "leaveRoomAttempt hs item r = (calls, caught)"
    by (cases "leaveRoomAttempt hs item r")
  have c: "list_all (\<lambda>c. \<not> isLeave c) calls"
    using leaveRoomAttempt_kick_only [OF Cons.prems, of hs r] p by simp
  show ?case
    using p c Cons.IH [OF Cons.prems]
    by (cases caught)
      (auto simp: callsOf_withCalls callsOf_tuple lengthBelowZero_never split: sum.splits)
qed

lemma leaveLoop_leave_only:
  "\<not> shouldKick item \<Longrightarrow> list_all (\<lambda>c. \<not> isKick c) (callsOf (leaveLoop hs item rs rr n))"
proof (induction rs arbitrary: rr n)
  case Nil
  show ?case by (simp add: callsOf_def)
next
  case (Cons r rs)
  obtain calls caught where p: "leaveRoomAttempt hs item r = (calls, caught)"
    by (cases "leaveRoomAttempt hs item r")
  have c: "list_all (\<lambda>c. \<not> isKick c) calls"
    using leaveRoomAttempt_leave_only [OF Cons.prems, of hs r] p by simp
  show ?case
    using p c Cons.IH [OF Cons.prems]
    by (cases caught)
      (auto simp: callsOf_withCalls callsOf_tuple lengthBelowZero_never split: sum.splits)
qed

lemma leaveLoop_first_call:
  "\<exists>cs. callsOf (leaveLoop hs item (r # rs) rr n) =
     (if shouldKick item then Kick r (leaveUserId item) (kickReason item)
      else Leave (leaveUserId item) r) # cs"
proof -
  obtain calls caught where p: "leaveRoomAttempt hs item r = (calls, caught)"
    by (cases "leaveRoomAttempt hs item r")
  from leaveRoomAttempt_first [of hs item r] p obtain cs where
    c: "calls = (if shouldKick item then Kick r (leaveUserId item) (kickReason item)
      else Leave (leaveUserId item) r) # cs" by auto
  show ?thesis
    using p c
    by (cases caught)
      (auto simp: callsOf_withCalls callsOf_tuple lengthBelowZero_never split: sum.splits)
qed

text \<open>
  The items that a run of \<open>handleLeaveQueue\<close> puts back are of the kind of the item run:
  what holds of the calls of one run below holds of the runs of the items put back, too.
\<close>

lemma leaveRoomAttempt_same_kind:
  "list_all (sameKind item) (fst (leaveRoomAttempt hs item r))"
  by (simp add: leaveRoomAttempt_def Let_def split: call_result.splits)

lemma leaveLoop_same_kind:
  "list_all (sameKind item) (callsOf (leaveLoop hs item rs rr n))"
proof (induction rs arbitrary: rr n)
  case Nil
  show ?case by (simp add: callsOf_def)
next
  case (Cons r rs)
  obtain calls caught where p: "leaveRoomAttempt hs item r = (calls, caught)"
    by (cases "leaveRoomAttempt hs item r")
  have c: "list_all (sameKind item) calls"
    using leaveRoomAttempt_same_kind [of item hs r] p by simp
  show ?case
    using p c Cons.IH
    by (cases caught)
      (auto simp: callsOf_withCalls callsOf_tuple lengthBelowZero_never split: sum.splits)
qed

lemma requeued_items_keep_kind:
  "list_all (sameKind item) (callsOf (handleLeaveQueue hs item))"
  by (simp add: handleLeaveQueue_def leaveLoop_same_kind)

text \<open>
  C5, as amended. When \<open>onKick\<close> queues an item, its rooms are the rooms mapped to the
  channel (at least one). If the kickee is virtual (the IRC client of a Matrix user), the
  item has \<open>shouldKick\<close> set: running it makes no leave call at all, and its first call is
  the bot's kick of that Matrix user from the first mapped room, with the kicker's nick in
  the reason. If the kickee is a real IRC user, the item has \<open>shouldKick\<close> unset: running
  it makes no kick call, and its first call is the leave of the kickee's Matrix user.
\<close>

theorem onKick_kicks_virtual_kickee:
  assumes "onKick rows clientByNick matrixUserOf server kicker kickee chan why = Some (key, item)"
  shows "rooms item = getMatrixRoomsForChannel rows server chan \<and> rooms item \<noteq> []
       \<and> (isVirtual kickee \<longrightarrow>
            shouldKick item
          \<and> clientByNick (nick kickee) = Some \<lparr>clientUserId = leaveUserId item, isBot = False\<rparr>
          \<and> list_all (\<lambda>c. \<not> isLeave c) (callsOf (handleLeaveQueue hs item))
          \<and> (\<exists>cs. callsOf (handleLeaveQueue hs item) =
                 Kick (hd (rooms item)) (leaveUserId item)
                   (Some (kickReasonText (nick kicker) chan why)) # cs))
       \<and> (\<not> isVirtual kickee \<longrightarrow>
            \<not> shouldKick item
          \<and> leaveUserId item = matrixUserOf kickee
          \<and> list_all (\<lambda>c. \<not> isKick c) (callsOf (handleLeaveQueue hs item))
          \<and> (\<exists>cs. callsOf (handleLeaveQueue hs item) =
                 Leave (leaveUserId item) (hd (rooms item)) # cs))"
proof -
  have r1: "rooms item = getMatrixRoomsForChannel rows server chan" and r2: "rooms item \<noteq> []"
    using assms by (auto simp: onKick_def Let_def split: if_splits option.splits)
  from r2 obtain r0 rs where rs: "rooms item = r0 # rs" by (auto simp: neq_Nil_conv)
  have first: "\<exists>cs. callsOf (handleLeaveQueue hs item) =
     (if shouldKick item then Kick (hd (rooms item)) (leaveUserId item) (kickReason item)
      else Leave (leaveUserId item) (hd (rooms item))) # cs"
    unfolding handleLeaveQueue_def rs list.sel by (rule leaveLoop_first_call)
  have virt: "shouldKick item
          \<and> clientByNick (nick kickee) = Some \<lparr>clientUserId = leaveUserId item, isBot = False\<rparr>
          \<and> list_all (\<lambda>c. \<not> isLeave c) (callsOf (handleLeaveQueue hs item))
          \<and> (\<exists>cs. callsOf (handleLeaveQueue hs item) =
                 Kick (hd (rooms item)) (leaveUserId item)
                   (Some (kickReasonText (nick kicker) chan why)) # cs)"
    if v: "isVirtual kickee"
  proof -
    from v have k: "shouldKick item"
      and why: "kickReason item = Some (kickReasonText (nick kicker) chan why)"
      and cli: "clientByNick (nick kickee) = Some \<lparr>clientUserId = leaveUserId item, isBot = False\<rparr>"
      using assms by (auto simp: onKick_def Let_def split: if_splits option.splits)
    have only: "list_all (\<lambda>c. \<not> isLeave c) (callsOf (handleLeaveQueue hs item))"
      unfolding handleLeaveQueue_def by (rule leaveLoop_kick_only [OF k])
    from first k why have "\<exists>cs. callsOf (handleLeaveQueue hs item) =
                 Kick (hd (rooms item)) (leaveUserId item)
                   (Some (kickReasonText (nick kicker) chan why)) # cs" by simp
    with k cli only show ?thesis by blast
  qed
  have real: "\<not> shouldKick item
          \<and> leaveUserId item = matrixUserOf kickee
          \<and> list_all (\<lambda>c. \<not> isKick c) (callsOf (handleLeaveQueue hs item))
          \<and> (\<exists>cs. callsOf (handleLeaveQueue hs item) =
                 Leave (leaveUserId item) (hd (rooms item)) # cs)"
    if v: "\<not> isVirtual kickee"
  proof -
    from v have k: "\<not> shouldKick item" and u: "leaveUserId item = matrixUserOf kickee"
      using assms by (auto simp: onKick_def Let_def split: if_splits option.splits)
    have only: "list_all (\<lambda>c. \<not> isKick c) (callsOf (handleLeaveQueue hs item))"
      unfolding handleLeaveQueue_def by (rule leaveLoop_leave_only [OF k])
    from first k have "\<exists>cs. callsOf (handleLeaveQueue hs item) =
                 Leave (leaveUserId item) (hd (rooms item)) # cs" by simp
    with k u only show ?thesis by blast
  qed
  from r1 r2 virt real show ?thesis by blast
qed

text \<open>
  C5 as stated fails: \<open>alice\<close>, a real IRC user, kicks the virtual client \<open>M-bob\<close> from
  \<open>#a\<close>. The only membership call on the room side is a kick by the bot, not a leave.
\<close>

theorem virtual_kickee_gets_kick_call:
  "isVirtual bobOnIrc
   \<and> filter isMembershipCall
        (onKickCalls resolving
           (onKick exampleRows examplePool exampleMatrixUserOf exampleServer alice bobOnIrc ''#a'' ''spam''))
     = [Kick ''!r:hs'' ''@bob:hs'' (Some ''alice has kicked this user from #a (spam)'')]"
  by (simp add: onKickCalls_def onKick_def Let_def getMatrixRoomsForChannel_def exampleRows_def
      exampleServer_def examplePool_def alice_def bobOnIrc_def resolving_def handleLeaveQueue_def
      leaveRoomAttempt_def callsOf_def withCalls_def lengthBelowZero_def promiseDelay_def
      kickReasonText_def)

theorem onKick_kicks_virtual_kickee_witness:
  "onKick exampleRows examplePool exampleMatrixUserOf exampleServer alice bobOnIrc ''#a'' ''spam''
     = Some (''#a@bob:hs'', bobKickItem)
   \<and> isVirtual bobOnIrc
   \<and> shouldKick bobKickItem
   \<and> list_all (\<lambda>c. \<not> isLeave c) (callsOf (handleLeaveQueue resolving bobKickItem))
   \<and> (\<exists>cs. callsOf (handleLeaveQueue resolving bobKickItem) =
          Kick ''!r:hs'' ''@bob:hs'' (Some ''alice has kicked this user from #a (spam)'') # cs)"
proof -
  have h: "onKick exampleRows examplePool exampleMatrixUserOf exampleServer alice bobOnIrc ''#a'' ''spam''
     = Some (''#a@bob:hs'', bobKickItem)"
    by (simp add: onKick_def Let_def getMatrixRoomsForChannel_def exampleRows_def
      exampleServer_def examplePool_def alice_def bobOnIrc_def bobKickItem_def kickReasonText_def)
  have v: "isVirtual bobOnIrc" by (simp add: bobOnIrc_def)
  note t = onKick_kicks_virtual_kickee [OF h, of resolving]
  from t v have k: "shouldKick bobKickItem" by blast
  from t v have l: "list_all (\<lambda>c. \<not> isLeave c) (callsOf (handleLeaveQueue resolving bobKickItem))"
    by blast
  from t v have f: "\<exists>cs. callsOf (handleLeaveQueue resolving bobKickItem) =
      Kick (hd (rooms bobKickItem)) (leaveUserId bobKickItem)
        (Some (kickReasonText (nick alice) ''#a'' ''spam'')) # cs"
    by blast
  have e: "hd (rooms bobKickItem) = ''!r:hs''" "leaveUserId bobKickItem = ''@bob:hs''"
    "kickReasonText (nick alice) ''#a'' ''spam'' = ''alice has kicked this user from #a (spam)''"
    by (simp_all add: bobKickItem_def kickReasonText_def alice_def)
  from f have f': "\<exists>cs. callsOf (handleLeaveQueue resolving bobKickItem) =
      Kick ''!r:hs'' ''@bob:hs'' (Some ''alice has kicked this user from #a (spam)'') # cs"
    unfolding e .
  show ?thesis using h v k l f' by blast
qed

lemma leaveRoomAttempt_caught:
  "snd (leaveRoomAttempt hs item r) =
     (case membershipCall hs r of Resolved \<Rightarrow> None | Rejected ex \<Rightarrow> Some ex)"
  by (simp add: leaveRoomAttempt_def Let_def split: call_result.splits)

lemma enqueuedRooms_append: "enqueuedRooms (xs @ ys) = enqueuedRooms xs @ enqueuedRooms ys"
  by (induction xs rule: enqueuedRooms.induct) simp_all

lemma leaveRoomAttempt_enqueues_nothing: "enqueuedRooms (fst (leaveRoomAttempt hs item r)) = []"
  by (simp add: leaveRoomAttempt_def Let_def split: call_result.splits)

lemma leaveLoop_retryRooms:
  "set (retryRoomsOf (leaveLoop hs item rs rr n)) \<subseteq> set rr \<union> {r \<in> set rs. retryable hs item r}"
proof (induction rs arbitrary: rr n)
  case Nil
  show ?case by (simp add: retryRoomsOf_def)
next
  case (Cons r rs)
  obtain calls caught where p: "leaveRoomAttempt hs item r = (calls, caught)"
    by (cases "leaveRoomAttempt hs item r")
  have c: "caught = (case membershipCall hs r of Resolved \<Rightarrow> None | Rejected ex \<Rightarrow> Some ex)"
    using leaveRoomAttempt_caught [of hs item r] p by simp
  show ?case
  proof (cases "membershipCall hs r")
    case Resolved
    with c p Cons.IH [of rr] Cons.IH [of rr "n + 1"] show ?thesis
      by (auto simp: retryRoomsOf_withCalls retryRoomsOf_tuple lengthBelowZero_never
          retryable_def split: sum.splits)
  next
    case (Rejected ex)
    with c p Cons.IH [of rr n] Cons.IH [of "rr @ [r]" "n + 1"] show ?thesis
      by (auto simp: retryRoomsOf_withCalls retryRoomsOf_tuple lengthBelowZero_never
          retryable_def split: sum.splits)
  qed
qed

lemma leaveLoop_enqueuedRooms:
  "set (enqueuedRooms (callsOf (leaveLoop hs item rs rr n)))
     \<subseteq> set rr \<union> {r \<in> set rs. retryable hs item r}"
proof (induction rs arbitrary: rr n)
  case Nil
  show ?case by (simp add: callsOf_def)
next
  case (Cons r rs)
  obtain calls caught where p: "leaveRoomAttempt hs item r = (calls, caught)"
    by (cases "leaveRoomAttempt hs item r")
  have c: "caught = (case membershipCall hs r of Resolved \<Rightarrow> None | Rejected ex \<Rightarrow> Some ex)"
    using leaveRoomAttempt_caught [of hs item r] p by simp
  have e: "enqueuedRooms calls = []"
    using leaveRoomAttempt_enqueues_nothing [of hs item r] p by simp
  show ?case
  proof (cases "membershipCall hs r")
    case Resolved
    with c p e Cons.IH [of rr "n + 1"] show ?thesis
      by (auto simp: callsOf_withCalls callsOf_tuple lengthBelowZero_never retryable_def
          enqueuedRooms_append split: sum.splits)
  next
    case (Rejected ex)
    with c p e Cons.IH [of rr n] Cons.IH [of "rr @ [r]" "n + 1"] show ?thesis
      by (auto simp: callsOf_withCalls callsOf_tuple lengthBelowZero_never retryable_def
          enqueuedRooms_append split: sum.splits)
  qed
qed

lemma is400_range: "is400 ex \<longleftrightarrow> (\<exists>st. httpStatus ex = Some st \<and> 401 \<le> st \<and> st \<le> 499)"
  by (auto simp: is400_def split: option.splits)

text \<open>
  With retries disallowed, with \<open>M_FORBIDDEN\<close> or with a status from 401 to 499, a
  rejected room is neither in \<open>retryRooms\<close> nor in the rooms of any item put back.
\<close>

lemma terminal_failure_not_retried:
  assumes "membershipCall hs r = Rejected ex"
    and "\<not> leaveRetry item \<or> errcode ex = Some ''M_FORBIDDEN''
         \<or> (\<exists>st. httpStatus ex = Some st \<and> 401 \<le> st \<and> st \<le> 499)"
  shows "r \<notin> set (retryRoomsOf (handleLeaveQueue hs item))
       \<and> r \<notin> set (enqueuedRooms (callsOf (handleLeaveQueue hs item)))"
proof -
  have "notRetrying item ex" using assms(2) by (simp add: notRetrying_def is400_range)
  then have "\<not> retryable hs item r" using assms(1) by (simp add: retryable_def)
  then show ?thesis
    using leaveLoop_retryRooms [of hs item "rooms item" "[]"]
      leaveLoop_enqueuedRooms [of hs item "rooms item" "[]"]
    by (auto simp: handleLeaveQueue_def)
qed

text \<open>
  C6 (the code at the failing input). The leave of \<open>!r:hs\<close> is rejected with status 400.
  \<open>is400\<close> is false for it (\<open>400 - 400 > 0\<close> fails), so the \<open>catch\<close> does not
  \<open>continue\<close> and the room is pushed to \<open>retryRooms\<close>, the retry set. (The run then ends
  in the \<open>TypeError\<close> of \<open>Promise.delay\<close>.)
\<close>

theorem bad_request_joins_retry_set:
  "membershipCall rejecting400 ''!r:hs'' = Rejected badRequest
   \<and> httpStatus badRequest = Some 400
   \<and> is400 badRequest = False
   \<and> retryRoomsOf (handleLeaveQueue rejecting400 partItem) = [''!r:hs'']
   \<and> exitOf (handleLeaveQueue rejecting400 partItem) = Threw TypeError"
  by (simp add: handleLeaveQueue_def partItem_def rejecting400_def badRequest_def
      leaveRoomAttempt_def Let_def notRetrying_def is400_def lengthBelowZero_def
      promiseDelay_def exitOf_def retryRoomsOf_def)

section \<open>Properties of the PM room promises\<close>

lemma first_contact_creates:
  "pmRoomPromises st (pmRoomPromiseId toU fromU) = None \<Longrightarrow>
   \<exists>st1. onPrivateMessageRoom st None toU fromU fromNick = Inr (st1, AwaitPromise (nextPromise st))
     \<and> pmRoomPromises st1 (pmRoomPromiseId toU fromU) = Some (nextPromise st)
     \<and> promiseStates st1 (nextPromise st) = Some Pending
     \<and> createRoomCalls st1 = createRoomCalls st @ [(fromU, toU, fromNick)]"
  by (simp add: onPrivateMessageRoom_def Let_def createPmRoom_def)

text \<open>
  A first-contact message that finds a promise stored for its pair is rejected with a
  \<open>TypeError\<close>, in whatever state the promise is: it makes no \<open>createRoom\<close> call, and it
  neither awaits the promise nor relays.
\<close>

lemma stored_promise_throws:
  "pmRoomPromises st (pmRoomPromiseId toU fromU) = Some h \<Longrightarrow>
   onPrivateMessageRoom st None toU fromU fromNick = Inl TypeError"
  by (simp add: onPrivateMessageRoom_def Let_def isRejected_def)

lemma settle_keeps_promises: "pmRoomPromises (settle st h v) = pmRoomPromises st"
  by (simp add: settle_def)

lemma afterFirstPm_stored:
  "pmRoomPromises afterFirstPm (pmRoomPromiseId ''@bob:hs'' ''@irc_alice:hs'') = Some 0"
  by (simp add: afterFirstPm_def firstPm_def onPrivateMessageRoom_def Let_def createPmRoom_def
      emptyPmState_def)

text \<open>
  C7 (the code at the failing input). The first message creates the room: one
  \<open>createRoom\<close> call, the promise stored under the pair's key, and the message relayed
  into \<open>!pm:hs\<close> once the promise resolved. The second message of the same pair finds the
  stored promise and is rejected with the \<open>TypeError\<close> of \<open>p.isRejected()\<close>, while the
  promise is pending as well as after it resolved: it does not await the promise and is
  not relayed.
\<close>

theorem second_private_message_throws:
  "map_sum id snd firstPm = Inr (AwaitPromise 0)
   \<and> createRoomCalls afterFirstPm = [(''@irc_alice:hs'', ''@bob:hs'', ''alice'')]
   \<and> pmRoomPromises afterFirstPm (pmRoomPromiseId ''@bob:hs'' ''@irc_alice:hs'') = Some 0
   \<and> relayRoom (settle afterFirstPm 0 (Fulfilled ''!pm:hs'')) (AwaitPromise 0) = Some ''!pm:hs''
   \<and> secondPm = Inl TypeError
   \<and> secondPmAfterRoom = Inl TypeError"
proof -
  have a: "map_sum id snd firstPm = Inr (AwaitPromise 0)"
    by (simp add: firstPm_def onPrivateMessageRoom_def Let_def createPmRoom_def emptyPmState_def)
  have b: "createRoomCalls afterFirstPm = [(''@irc_alice:hs'', ''@bob:hs'', ''alice'')]"
    by (simp add: afterFirstPm_def firstPm_def onPrivateMessageRoom_def Let_def createPmRoom_def
        emptyPmState_def)
  have c: "relayRoom (settle afterFirstPm 0 (Fulfilled ''!pm:hs'')) (AwaitPromise 0) = Some ''!pm:hs''"
    by (simp add: relayRoom_def settle_def afterFirstPm_def firstPm_def onPrivateMessageRoom_def
        Let_def createPmRoom_def emptyPmState_def)
  have d: "secondPm = Inl TypeError"
    unfolding secondPm_def by (rule stored_promise_throws [OF afterFirstPm_stored])
  have e: "secondPmAfterRoom = Inl TypeError"
    unfolding secondPmAfterRoom_def
    by (rule stored_promise_throws) (simp add: settle_keeps_promises afterFirstPm_stored)
  from a b afterFirstPm_stored c d e show ?thesis by blast
qed

section \<open>Properties of topic propagation\<close>

lemma serviceTopicEntry_skips:
  "matrixTopic e = Some tp \<Longrightarrow> filter isSetRoomTopic (fst (serviceTopicEntry tr u tp e)) = []"
  by (simp add: serviceTopicEntry_def Let_def)

lemma serviceTopicEntry_stored_ok:
  "senderCanSet tr (matrixId e) \<or> botCanSet tr (matrixId e) \<Longrightarrow> upsertOk tr (matrixId e) \<Longrightarrow>
   snd (snd (serviceTopicEntry tr u tp e)) = e\<lparr>matrixTopic := Some tp\<rparr>"
  by (auto simp: serviceTopicEntry_def Let_def)

lemma serviceTopicEntry_first_try:
  "matrixTopic e \<noteq> Some tp \<Longrightarrow> senderCanSet tr (matrixId e) \<Longrightarrow>
   filter isSetRoomTopic (fst (serviceTopicEntry tr u tp e)) = [SetRoomTopic (Some u) (matrixId e) tp]"
  by (simp add: serviceTopicEntry_def Let_def)

text \<open>
  \<open>serviceTopicQueue\<close> by itself, run again on what it stored, is silent when in every
  room the first run could set the topic and store it.
\<close>

lemma serviceTopicQueue_rerun_silent:
  assumes "list_all (\<lambda>e. (senderCanSet tr (matrixId e) \<or> botCanSet tr (matrixId e))
             \<and> upsertOk tr (matrixId e)) ents"
  shows "filter isSetRoomTopic
           (fst (serviceTopicQueue tr u tp (snd (serviceTopicQueue tr u tp ents)))) = []"
proof -
  have s: "map (\<lambda>e. snd (snd (serviceTopicEntry tr u tp e))) ents
         = map (\<lambda>e. e\<lparr>matrixTopic := Some tp\<rparr>) ents"
    using assms by (induction ents) (simp_all add: serviceTopicEntry_stored_ok)
  have f: "filter isSetRoomTopic
       (concat (map (\<lambda>e. fst (serviceTopicEntry tr u tp (e\<lparr>matrixTopic := Some tp\<rparr>))) xs)) = []" for xs
    by (induction xs) (simp_all add: serviceTopicEntry_skips)
  show ?thesis
    by (simp add: serviceTopicQueue_def s f o_def)
qed

text \<open>With a mapped room, \<open>onTopic\<close> is rejected before it queues anything.\<close>

lemma onTopic_throws:
  "ents \<noteq> [] \<Longrightarrow> onTopic tr ents sender tp = (Some ReferenceError, [], ents)"
  by (simp add: onTopic_def newMatrixUser_def)

text \<open>
  C8 (the code at the failing input). One room is mapped to the channel, no topic is
  cached for it and every remote call would resolve. \<open>onTopic\<close> is rejected with the
  \<open>ReferenceError\<close> of \<open>new MatrixUser(...)\<close> before the item is queued, in the first run
  and in the second: the two runs together make no \<open>setRoomTopic\<close> call for the room,
  not one.
\<close>

theorem topic_never_set:
  "length untitledRoom = 1
   \<and> onTopic everyoneCan untitledRoom ''@irc_alice:hs'' ''hello''
       = (Some ReferenceError, [], untitledRoom)
   \<and> filter isSetRoomTopic
        (fst (onTopicTwice everyoneCan untitledRoom ''@irc_alice:hs'' ''hello'')
           @ snd (onTopicTwice everyoneCan untitledRoom ''@irc_alice:hs'' ''hello'')) = []"
  by (simp add: onTopicTwice_def onTopic_def newMatrixUser_def untitledRoom_def)

section \<open>Properties of the mention cache\<close>

lemma mapSet_new: "\<not> mapHas cache k \<Longrightarrow> mapSet cache k v = cache @ [(k, v)]"
  by (induction cache) (auto simp: mapHas_def)

lemma onMessageMapping_miss:
  "\<not> mapHas cache (d @ '':'' @ c) \<Longrightarrow> mode \<noteq> MentionsForceOff \<Longrightarrow>
   fst (onMessageMapping mode cache d c m) = cache @ [(d @ '':'' @ c, m)]"
  by (simp add: onMessageMapping_def Let_def mapSet_new keysAtZero_def)

lemma fullCache_length: "length fullCache = 512"
  by (simp add: fullCache_def)

lemma fullCache_distinct: "distinct (map fst fullCache)"
proof -
  have "inj_on (\<lambda>i. ''irc.example:#'' @ replicate (Suc i) CHR ''x'') (set [0..<512])"
    by (rule inj_onI) (metis length_replicate nat.inject same_append_eq)
  then show ?thesis by (simp add: fullCache_def o_def distinct_map)
qed

lemma fullCache_miss: "\<not> mapHas fullCache (''irc.example'' @ '':'' @ ''#new'')"
  by (auto simp: mapHas_def fullCache_def map_of_eq_None_iff image_iff)

text \<open>
  C9 (the code at the failing input). The cache holds 512 channels and a message arrives
  on a channel it does not hold. The new entry makes 513; the eviction deletes the key
  \<open>undefined\<close>, which removes nothing: the cache is left with 513 entries, the 512 old
  ones among them.
\<close>

theorem mention_cache_grows_past_max:
  "length fullCache = NICK_USERID_CACHE_MAX
   \<and> distinct (map fst fullCache)
   \<and> \<not> mapHas fullCache (''irc.example'' @ '':'' @ ''#new'')
   \<and> length (fst (onMessageMapping MentionsOn fullCache ''irc.example'' ''#new'' [])) = 513
   \<and> take 512 (fst (onMessageMapping MentionsOn fullCache ''irc.example'' ''#new'' [])) = fullCache"
proof -
  have m: "fst (onMessageMapping MentionsOn fullCache ''irc.example'' ''#new'' [])
      = fullCache @ [(''irc.example'' @ '':'' @ ''#new'', [])]"
    by (rule onMessageMapping_miss [OF fullCache_miss]) simp
  have l: "length (fst (onMessageMapping MentionsOn fullCache ''irc.example'' ''#new'' [])) = 513"
    unfolding m by (simp add: fullCache_length)
  have t: "take 512 (fst (onMessageMapping MentionsOn fullCache ''irc.example'' ''#new'' [])) = fullCache"
    unfolding m by (simp add: fullCache_length)
  have n: "length fullCache = NICK_USERID_CACHE_MAX"
    by (simp add: fullCache_length NICK_USERID_CACHE_MAX_def)
  from n fullCache_distinct fullCache_miss l t show ?thesis by blast
qed

end
